theory Spec2Isabelle
  imports Complex_Main "HOL-Library.Sublist"
begin

section \<open>JavaScript values and built-ins used by the services\<close>

text \<open>
  Strings are \<^typ>\<open>string\<close>; case mapping is modelled on the ASCII letters and leaves every
  other character alone. A JavaScript \<open>Set\<close> of strings keeps insertion order, which is what
  \<open>[...set]\<close> writes to the cache file, so it is a duplicate-free list here.
\<close>

definition Set_has :: "string list \<Rightarrow> string \<Rightarrow> bool" where
  "Set_has s x = (x \<in> set s)"

definition Set_add :: "string \<Rightarrow> string list \<Rightarrow> string list" where
  "Set_add x s = (if x \<in> set s then s else s @ [x])"

definition Set_delete :: "string \<Rightarrow> string list \<Rightarrow> string list" where
  "Set_delete x s = filter (\<lambda>y. y \<noteq> x) s"

definition digit_char :: "nat \<Rightarrow> char" where
  "digit_char d = ''0123456789'' ! d"

text \<open>Decimal rendering of a non-negative integer, as a template literal does for an id.\<close>

fun string_of_nat :: "nat \<Rightarrow> string" where
  "string_of_nat n =
     (if n < 10 then [digit_char n] else string_of_nat (n div 10) @ [digit_char (n mod 10)])"

text \<open>\<open>Array.prototype.join\<close>.\<close>

fun join :: "string \<Rightarrow> string list \<Rightarrow> string" where
  "join sep [] = []"
| "join sep [x] = x"
| "join sep (x # y # ys) = x @ sep @ join sep (y # ys)"

text \<open>\<open>Array.prototype.indexOf\<close>: the first position holding the element, \<open>-1\<close> when absent.\<close>

fun indexOf :: "'a list \<Rightarrow> 'a \<Rightarrow> int" where
  "indexOf [] x = - 1"
| "indexOf (y # ys) x =
     (if y = x then 0 else (let i = indexOf ys x in if i < 0 then - 1 else i + 1))"

text \<open>\<open>s.replace(pat, rep)\<close> with a string pattern: only the first occurrence is replaced.\<close>

fun replace_first :: "string \<Rightarrow> string \<Rightarrow> string \<Rightarrow> string" where
  "replace_first pat rep [] = (if pat = [] then rep else [])"
| "replace_first pat rep (c # cs) =
     (if prefix pat (c # cs) then rep @ drop (length pat) (c # cs)
      else c # replace_first pat rep cs)"

definition toLowerCase_char :: "char \<Rightarrow> char" where
  "toLowerCase_char c =
     (let n = (of_char c :: nat) in if 65 \<le> n \<and> n \<le> 90 then char_of (n + 32) else c)"

definition toUpperCase_char :: "char \<Rightarrow> char" where
  "toUpperCase_char c =
     (let n = (of_char c :: nat) in if 97 \<le> n \<and> n \<le> 122 then char_of (n - 32) else c)"

definition toLowerCase :: "string \<Rightarrow> string" where
  "toLowerCase s = map toLowerCase_char s"

text \<open>\<open>s.includes(sub)\<close>: \<open>sub\<close> occurs in \<open>s\<close> as a contiguous run.\<close>

definition String_includes :: "string \<Rightarrow> string \<Rightarrow> bool" where
  "String_includes s sub = sublist sub s"

text \<open>
  A value that is a number or a string (the tracker's point estimate). A number that JSON
  can carry is a finite double, which is a rational.
\<close>

datatype jsval = JNum rat | JStr string

text \<open>An exception, by its message (a \<open>TypeError\<close> is an \<open>Error\<close> too).\<close>

datatype js_error = Error (message: string)

text \<open>The message of the \<open>TypeError\<close> that reading property \<open>prop\<close> of undefined raises.\<close>

definition undefined_read_message :: "string \<Rightarrow> string" where
  "undefined_read_message prop =
     ''Cannot read properties of undefined (reading '' @ [CHR 0x27] @ prop @ [CHR 0x27] @ '')''"


section \<open>The tracker's task records (services/phabricator.js)\<close>

text \<open>
  A field read through \<open>?.\<close>, \<open>||\<close> or \<open>??\<close> in the source may be absent and is an
  \<open>option\<close>. So is \<open>task.fields\<close>, which \<open>formatTaskForPrint\<close> dereferences without a
  guard and on whose absence it raises. The other fields that the source dereferences
  directly (\<open>task.id\<close>, \<open>board.columns\<close>, \<open>col.name\<close>) are present in every record. The
  boards object is the list of its entries in \<open>Object.values\<close> order.
\<close>

record column =
  col_name :: string

record board =
  board_columns :: "column list"

record columns_attachment =
  boards :: "(string \<times> board) list option"

record projects_attachment =
  projectPHIDs :: "string list option"

record attachments =
  att_projects :: "projects_attachment option"
  att_columns :: "columns_attachment option"

record named =
  nm_name :: "string option"

record fields =
  f_name :: "string option"
  f_priority :: "named option"
  f_points :: "jsval option"
  f_status :: "named option"

record task =
  task_id :: nat
  task_fields :: "fields option"
  task_attachments :: "attachments option"

record formatted_task =
  taskId :: string
  numericId :: nat
  title :: string
  priority :: string
  points :: jsval
  status :: string
  projectPhids :: "string list"
  columns :: "string list"
  url :: string

text \<open>\<open>task.attachments?.columns?.boards\<close>\<close>

definition columnsData :: "task \<Rightarrow> (string \<times> board) list option" where
  "columnsData t =
     (case task_attachments t of
        None \<Rightarrow> None
      | Some a \<Rightarrow> (case att_columns a of None \<Rightarrow> None | Some c \<Rightarrow> boards c))"

text \<open>\<open>Object.values(columnsData)\<close>\<close>

definition Object_values :: "(string \<times> board) list \<Rightarrow> board list" where
  "Object_values obj = map snd obj"


subsection \<open>The regular expression built from the keywords\<close>

text \<open>
  \<open>new RegExp(pattern, 'i')\<close> is interpreted for the patterns made of ordinary characters,
  the wildcard \<open>.\<close> and the alternation bar. A pattern using any other syntax character is
  outside this fragment: \<open>OutsideFragment\<close> is not an outcome of the program, it marks the
  patterns about which this development says nothing.
\<close>

datatype atom = PatternCharacter char | Dot

type_synonym disjunction = "atom list list"

datatype regexp_error = OutsideFragment

definition SyntaxCharacter :: "char \<Rightarrow> bool" where
  "SyntaxCharacter c = (c \<in> set (''^$.*+?()[]{}|'' @ [CHR 0x5C]))"

fun parse_disjunction :: "string \<Rightarrow> disjunction option" where
  "parse_disjunction [] = Some [[]]"
| "parse_disjunction (c # cs) =
     (case parse_disjunction cs of
        None \<Rightarrow> None
      | Some [] \<Rightarrow> None
      | Some (a # as) \<Rightarrow>
          if c = CHR ''|'' then Some ([] # a # as)
          else if c = CHR ''.'' then Some ((Dot # a) # as)
          else if SyntaxCharacter c then None
          else Some ((PatternCharacter c # a) # as))"

text \<open>
  With the \<open>i\<close> flag two characters match when their canonical (upper case) forms agree; the
  wildcard matches every character but a line terminator.
\<close>

fun atom_matches :: "atom \<Rightarrow> char \<Rightarrow> bool" where
  "atom_matches (PatternCharacter c) d = (toUpperCase_char c = toUpperCase_char d)"
| "atom_matches Dot d = (d \<noteq> CHR 0x0A \<and> d \<noteq> CHR 0x0D)"

fun matches_at :: "atom list \<Rightarrow> string \<Rightarrow> bool" where
  "matches_at [] s = True"
| "matches_at (a # as) [] = False"
| "matches_at (a # as) (c # cs) = (atom_matches a c \<and> matches_at as cs)"

text \<open>\<open>pattern.test(s)\<close>: some alternative matches at some start position of \<open>s\<close>.\<close>

fun search :: "atom list \<Rightarrow> string \<Rightarrow> bool" where
  "search alt [] = matches_at alt []"
| "search alt (c # cs) = (matches_at alt (c # cs) \<or> search alt cs)"

definition regexp_test :: "disjunction \<Rightarrow> string \<Rightarrow> bool" where
  "regexp_test d s = list_ex (\<lambda>alt. search alt s) d"

definition RegExp_i :: "string \<Rightarrow> regexp_error + (string \<Rightarrow> bool)" where
  "RegExp_i pattern =
     (case parse_disjunction pattern of
        None \<Rightarrow> Inl OutsideFragment
      | Some d \<Rightarrow> Inr (regexp_test d))"


subsection \<open>filterSprintTasks and formatTaskForPrint\<close>

text \<open>
  The callback given to \<open>tasks.filter\<close>; \<open>test\<close> is \<open>sprintPattern.test\<close>.
\<close>

definition in_sprint_column :: "(string \<Rightarrow> bool) \<Rightarrow> task \<Rightarrow> bool" where
  "in_sprint_column test t =
     (case columnsData t of
        None \<Rightarrow> False
      | Some obj \<Rightarrow>
          list_ex (\<lambda>b. list_ex (\<lambda>col. test (col_name col)) (board_columns b))
            (Object_values obj))"

text \<open>
  \<open>filterSprintTasks\<close>, with the \<open>RegExp\<close> constructor of the platform as a parameter and
  \<open>config.filters.sprintColumns\<close> as \<open>sprintKeywords\<close>. The constructor runs once, before
  any task is looked at, and an exception it raises leaves the function.
\<close>

definition filterSprintTasks ::
  "(string \<Rightarrow> 'e + (string \<Rightarrow> bool)) \<Rightarrow> string list \<Rightarrow> task list \<Rightarrow> 'e + task list" where
  "filterSprintTasks RegExp sprintKeywords tasks =
     (case RegExp (join ''|'' sprintKeywords) of
        Inl e \<Rightarrow> Inl e
      | Inr test \<Rightarrow> Inr (filter (in_sprint_column test) tasks))"

text \<open>\<open>x || d\<close> for an optional string: absent and empty both give the default.\<close>

definition or_default :: "string option \<Rightarrow> string \<Rightarrow> string" where
  "or_default x d = (case x of None \<Rightarrow> d | Some s \<Rightarrow> if s = [] then d else s)"

text \<open>\<open>obj?.name\<close>\<close>

definition opt_name :: "named option \<Rightarrow> string option" where
  "opt_name obj = (case obj of None \<Rightarrow> None | Some n \<Rightarrow> nm_name n)"

definition column_names :: "task \<Rightarrow> string list" where
  "column_names t =
     (case columnsData t of
        None \<Rightarrow> []
      | Some obj \<Rightarrow> concat (map (\<lambda>b. map col_name (board_columns b)) (Object_values obj)))"

text \<open>
  \<open>formatTaskForPrint\<close>; \<open>baseUrl\<close> is the field of the service, \<open>process.env.PHAB_URL\<close>,
  which is undefined when the variable is not set. Reading \<open>task.fields.name\<close> raises a
  \<open>TypeError\<close> when the task has no \<open>fields\<close>, and \<open>this.baseUrl.replace\<close> raises one
  when the URL is undefined.
\<close>

definition formatTaskForPrint :: "string option \<Rightarrow> task \<Rightarrow> js_error + formatted_task" where
  "formatTaskForPrint baseUrl t =
     (case task_fields t of
        None \<Rightarrow> Inl (Error (undefined_read_message ''name''))
      | Some f \<Rightarrow>
          (case baseUrl of
             None \<Rightarrow> Inl (Error (undefined_read_message ''replace''))
           | Some u \<Rightarrow>
               (let tid = ''T'' @ string_of_nat (task_id t)
                in Inr \<lparr> taskId = tid,
                         numericId = task_id t,
                         title = or_default (f_name f) ''Untitled'',
                         priority = or_default (opt_name (f_priority f)) ''Unknown'',
                         points = (case f_points f of None \<Rightarrow> JStr ''N/A'' | Some p \<Rightarrow> p),
                         status = or_default (opt_name (f_status f)) ''Unknown'',
                         projectPhids =
                           (case task_attachments t of
                              None \<Rightarrow> []
                            | Some a \<Rightarrow>
                                (case att_projects a of
                                   None \<Rightarrow> []
                                 | Some p \<Rightarrow>
                                     (case projectPHIDs p of None \<Rightarrow> [] | Some ps \<Rightarrow> ps))),
                         columns = column_names t,
                         url = replace_first ''/api'' [] u @ ''/'' @ tid \<rparr>)))"

text \<open>
  The selection the specification describes: a task qualifies when some column name of some
  board contains some keyword as a substring, compared without regard to case.
\<close>

definition contains_ci :: "string \<Rightarrow> string \<Rightarrow> bool" where
  "contains_ci name keyword = String_includes (toLowerCase name) (toLowerCase keyword)"

definition selectSprintTasks_spec :: "string list \<Rightarrow> task list \<Rightarrow> task list" where
  "selectSprintTasks_spec keywords tasks =
     filter (in_sprint_column (\<lambda>name. list_ex (contains_ci name) keywords)) tasks"


section \<open>The printer service (services/printer.js)\<close>

text \<open>
  The cache file \<open>.printed-tasks.json\<close>: missing, holding a JSON array of identifiers, or
  such that reading or parsing it raises (with the message of the exception).
\<close>

datatype cache_file = NoFile | JsonIds "string list" | Unreadable string

text \<open>
  How \<open>writeFileSync\<close> can fail. It opens the file with flag \<open>w\<close>, which truncates it:
  a failure of the open leaves the file as it was; a failure after the open leaves it
  empty or holding the beginning of the new text, which is not JSON (the second message
  is the one parsing the remains will raise).
\<close>

datatype write_fault = FailsAtOpen string | FailsAfterTruncate string string

text \<open>\<open>config.printer.type\<close>\<close>

datatype printer_type = USB | Network

text \<open>
  What one run of the external print operation does: the device object cannot be built
  (\<open>getDevice\<close> or the \<open>Printer\<close> constructor raises), \<open>device.open\<close> calls back with an
  error, the command chain raises, or the ticket is sent.
\<close>

datatype print_outcome =
  Printed | DeviceUnavailable string | OpenFailed string | PrintFailed string

text \<open>
  The observable effects, in order: console lines, the dry-run preview that
  \<open>simulatePrint\<close> draws, each run of the external print operation, each wait.
\<close>

datatype event =
  ConsoleLog string | ConsoleWarn string | ConsoleError string
| Preview formatted_task | PrintOp formatted_task print_outcome | Sleep int

text \<open>
  The fields of a \<open>PrinterService\<close> (\<open>dryRun\<close>, \<open>printedTasks\<close>, and whether
  \<open>this.escpos\<close> has been set) together with its environment: the configured printer
  type, the cache file, whether and how \<open>writeFileSync\<close> fails, how the device answers
  the n-th run of the print operation, the number of runs so far, and the effects so far.
\<close>

record printer_service =
  dryRun :: bool
  printedTasks :: "string list"
  escpos :: bool
  printerType :: printer_type
  cacheFile :: cache_file
  writeError :: "write_fault option"
  device :: "nat \<Rightarrow> print_outcome"
  attempts :: nat
  trace :: "event list"

definition emit :: "event \<Rightarrow> printer_service \<Rightarrow> printer_service" where
  "emit e st = st\<lparr>trace := trace st @ [e]\<rparr>"

definition loadPrintedTasks :: "printer_service \<Rightarrow> printer_service" where
  "loadPrintedTasks st =
     (case cacheFile st of
        NoFile \<Rightarrow> st
      | Unreadable msg \<Rightarrow> emit (ConsoleWarn (''Could not load printed tasks cache: '' @ msg)) st
      | JsonIds data \<Rightarrow>
          (let st1 = st\<lparr>printedTasks := fold Set_add data (printedTasks st)\<rparr>
           in emit (ConsoleLog (''Loaded '' @ string_of_nat (length (printedTasks st1))
                                @ '' previously printed tasks'')) st1))"

text \<open>
  The constructor: an empty set, then the load, then \<open>escpos\<close> is loaded (the modules are
  taken to be installed) unless the service is built for a dry run. A restart of the
  process runs the constructor again.
\<close>

definition PrinterService :: "bool \<Rightarrow> printer_service \<Rightarrow> printer_service" where
  "PrinterService dry env =
     (loadPrintedTasks (env\<lparr>dryRun := dry, printedTasks := [], escpos := False\<rparr>))
       \<lparr>escpos := \<not> dry\<rparr>"

definition savePrintedTasks :: "printer_service \<Rightarrow> printer_service" where
  "savePrintedTasks st =
     (case writeError st of
        None \<Rightarrow> st\<lparr>cacheFile := JsonIds (printedTasks st)\<rparr>
      | Some (FailsAtOpen msg) \<Rightarrow>
          emit (ConsoleWarn (''Could not save printed tasks cache: '' @ msg)) st
      | Some (FailsAfterTruncate msg remains) \<Rightarrow>
          emit (ConsoleWarn (''Could not save printed tasks cache: '' @ msg))
            (st\<lparr>cacheFile := Unreadable remains\<rparr>))"

definition isAlreadyPrinted :: "printer_service \<Rightarrow> string \<Rightarrow> bool" where
  "isAlreadyPrinted st tid = Set_has (printedTasks st) tid"

definition markPrinted :: "string \<Rightarrow> printer_service \<Rightarrow> printer_service" where
  "markPrinted tid st = savePrintedTasks (st\<lparr>printedTasks := Set_add tid (printedTasks st)\<rparr>)"

definition clearCache :: "printer_service \<Rightarrow> printer_service" where
  "clearCache st =
     emit (ConsoleLog ''Printed tasks cache cleared'')
       (savePrintedTasks (st\<lparr>printedTasks := []\<rparr>))"

definition truncate_str :: "string \<Rightarrow> nat \<Rightarrow> string" where
  "truncate_str str maxLen =
     (if str = [] then []
      else if length str > maxLen then take (maxLen - 3) str @ ''...'' else str)"

definition simulatePrint :: "formatted_task \<Rightarrow> printer_service \<Rightarrow> printer_service" where
  "simulatePrint t st = emit (Preview t) st"

text \<open>
  \<open>printTask\<close>: the promise resolves to a boolean (\<open>Inr\<close>) or is rejected with an error
  (\<open>Inl\<close>). With \<open>this.escpos\<close> unset, the real path raises a \<open>TypeError\<close> before any
  device is reached: in \<open>getDevice\<close> at \<open>new this.escpos.USB()\<close> for a USB printer, at
  \<open>new this.escpos.Printer\<close> for a network printer.
\<close>

definition printTask ::
  "formatted_task \<Rightarrow> printer_service \<Rightarrow> (js_error + bool) \<times> printer_service" where
  "printTask t st =
     (if isAlreadyPrinted st (taskId t) then
        (Inr False, emit (ConsoleLog (''[SKIP] '' @ taskId t @ '' already printed'')) st)
      else if dryRun st then
        (Inr True,
         simulatePrint t (emit (ConsoleLog (''[DRY-RUN] Simulating print for '' @ taskId t)) st))
      else if \<not> escpos st then
        (Inl (Error (undefined_read_message
                       (case printerType st of USB \<Rightarrow> ''USB'' | Network \<Rightarrow> ''Printer''))),
         st)
      else
        (let outcome = device st (attempts st);
             st1 = emit (PrintOp t outcome) (st\<lparr>attempts := attempts st + 1\<rparr>)
         in case outcome of
              DeviceUnavailable msg \<Rightarrow> (Inl (Error msg), st1)
            | OpenFailed msg \<Rightarrow>
                (Inl (Error msg),
                 emit (ConsoleError (''[ERROR] Could not open printer: '' @ msg)) st1)
            | PrintFailed msg \<Rightarrow>
                (Inl (Error msg),
                 emit (ConsoleError (''[ERROR] Print failed for '' @ taskId t @ '': '' @ msg)) st1)
            | Printed \<Rightarrow>
                (Inr True,
                 emit (ConsoleLog (''[PRINT] '' @ taskId t @ '': '' @ truncate_str (title t) 40))
                   (markPrinted (taskId t) st1))))"

text \<open>
  The sample ticket of \<open>printTest\<close>; the object literal of the source has no
  \<open>numericId\<close> and no \<open>projectPhids\<close>, which nothing reads.
\<close>

definition testTask :: formatted_task where
  "testTask =
     \<lparr> taskId = ''T00000'', numericId = 0, title = ''Test Ticket - PhabPrint'',
       priority = ''Normal'', points = JStr ''3'', status = ''Open'', projectPhids = [],
       columns = [''Test Column''], url = ''https://phabricator.example.com/T00000'' \<rparr>"

definition printTest :: "printer_service \<Rightarrow> (js_error + bool) \<times> printer_service" where
  "printTest st =
     printTask testTask (st\<lparr>printedTasks := Set_delete (taskId testTask) (printedTasks st)\<rparr>)"

definition sleep :: "int \<Rightarrow> printer_service \<Rightarrow> printer_service" where
  "sleep ms st = emit (Sleep ms) st"

text \<open>
  The array given to \<open>printTasks\<close> holds references to task objects: \<open>indexOf\<close> compares
  them by identity, so the array is a list of addresses and \<open>heap\<close> gives the object at
  each. \<open>delayMs\<close> is the argument after its default (1000) has been applied. One turn of
  the loop body, on the count and the service:
\<close>

type_synonym ref = nat

definition printTasks_body ::
  "(ref \<Rightarrow> formatted_task) \<Rightarrow> ref list \<Rightarrow> int \<Rightarrow> ref \<Rightarrow> nat \<times> printer_service \<Rightarrow>
     nat \<times> printer_service" where
  "printTasks_body heap tasks delayMs r = (\<lambda>(printedCount, st).
     case printTask (heap r) st of
       (Inr printed, st1) \<Rightarrow>
         if printed then
           (printedCount + 1,
            if indexOf tasks r < int (length tasks) - 1 then sleep delayMs st1 else st1)
         else (printedCount, st1)
     | (Inl err, st1) \<Rightarrow>
         (printedCount,
          emit (ConsoleError (''[ERROR] Failed to print '' @ taskId (heap r) @ '': ''
                              @ message err)) st1))"

definition printTasks_loop ::
  "(ref \<Rightarrow> formatted_task) \<Rightarrow> ref list \<Rightarrow> int \<Rightarrow> ref list \<Rightarrow> nat \<times> printer_service \<Rightarrow>
     nat \<times> printer_service" where
  "printTasks_loop heap tasks delayMs rest acc = fold (printTasks_body heap tasks delayMs) rest acc"

definition printTasks ::
  "(ref \<Rightarrow> formatted_task) \<Rightarrow> ref list \<Rightarrow> int \<Rightarrow> printer_service \<Rightarrow> nat \<times> printer_service" where
  "printTasks heap tasks delayMs st = printTasks_loop heap tasks delayMs tasks (0, st)"

text \<open>The runs of the external print operation and the waits among the effects.\<close>

fun is_PrintOp :: "event \<Rightarrow> bool" where
  "is_PrintOp (PrintOp t out) = True"
| "is_PrintOp e = False"

fun is_Sleep :: "event \<Rightarrow> bool" where
  "is_Sleep (Sleep ms) = True"
| "is_Sleep e = False"

definition print_ops :: "printer_service \<Rightarrow> event list" where
  "print_ops st = filter is_PrintOp (trace st)"

definition waits :: "printer_service \<Rightarrow> event list" where
  "waits st = filter is_Sleep (trace st)"

text \<open>Whether a write would fail after truncating the cache file.\<close>

definition write_truncates :: "printer_service \<Rightarrow> bool" where
  "write_truncates st =
     (case writeError st of Some (FailsAfterTruncate msg remains) \<Rightarrow> True | _ \<Rightarrow> False)"

text \<open>The identifiers a restart would load from the cache file.\<close>

definition persisted :: "printer_service \<Rightarrow> string set" where
  "persisted st = set (printedTasks (PrinterService False st))"

text \<open>The methods of the service, as operations on it.\<close>

datatype operation =
  LoadPrintedTasks | SavePrintedTasks | IsAlreadyPrinted string | MarkPrinted string
| ClearCache | SimulatePrint formatted_task | PrintTask formatted_task | PrintTest
| PrintTasks "ref \<Rightarrow> formatted_task" "ref list" int | SleepFor int

fun exec :: "operation \<Rightarrow> printer_service \<Rightarrow> printer_service" where
  "exec LoadPrintedTasks st = loadPrintedTasks st"
| "exec SavePrintedTasks st = savePrintedTasks st"
| "exec (IsAlreadyPrinted tid) st = st"
| "exec (MarkPrinted tid) st = markPrinted tid st"
| "exec ClearCache st = clearCache st"
| "exec (SimulatePrint t) st = simulatePrint t st"
| "exec (PrintTask t) st = snd (printTask t st)"
| "exec PrintTest st = snd (printTest st)"
| "exec (PrintTasks heap tasks delayMs) st = snd (printTasks heap tasks delayMs st)"
| "exec (SleepFor ms) st = sleep ms st"


section \<open>Sample values\<close>

text \<open>
  A service in real mode (with \<open>escpos\<close> loaded, for a USB printer) with nothing printed,
  no cache file, a file system that accepts writes and a device that prints every ticket.
\<close>

definition env0 :: printer_service where
  "env0 = \<lparr> dryRun = False, printedTasks = [], escpos = True, printerType = USB,
            cacheFile = NoFile, writeError = None,
            device = (\<lambda>n. Printed), attempts = 0, trace = [] \<rparr>"


text \<open>
  Task \<open>n\<close> as the tracker returns it: on one board, in the named columns, or with no
  attachment data at all; and task \<open>n\<close> with a \<open>fields\<close> object that holds nothing.
\<close>

definition raw_task :: "nat \<Rightarrow> string list option \<Rightarrow> task" where
  "raw_task n cols =
     \<lparr> task_id = n,
       task_fields =
         Some \<lparr> f_name = Some ''Fix login button'',
                f_priority = Some \<lparr> nm_name = Some ''High'' \<rparr>,
                f_points = Some (JNum 3), f_status = Some \<lparr> nm_name = Some ''Open'' \<rparr> \<rparr>,
       task_attachments =
         (case cols of
            None \<Rightarrow> None
          | Some cs \<Rightarrow>
              Some \<lparr> att_projects = Some \<lparr> projectPHIDs = Some [''PHID-PROJ-1''] \<rparr>,
                     att_columns =
                       Some \<lparr> boards =
                         Some [(''PHID-PROJ-1'',
                                \<lparr> board_columns = map (\<lambda>c. \<lparr> col_name = c \<rparr>) cs \<rparr>)] \<rparr> \<rparr>) \<rparr>"


text \<open>The ticket of task \<open>n\<close>; as a heap, address \<open>n\<close> holds the ticket of task \<open>n\<close>.\<close>

definition ticket :: "nat \<Rightarrow> formatted_task" where
  "ticket n =
     \<lparr> taskId = ''T'' @ string_of_nat n, numericId = n, title = ''Fix login button'',
       priority = ''High'', points = JNum 3, status = ''Open'', projectPhids = [],
       columns = [''Doing''], url = ''https://phabricator.example.com/T'' @ string_of_nat n \<rparr>"


section \<open>Basic facts about the set, the effects and the cache file\<close>

declare string_of_nat.simps [simp del]

lemma Set_has_iff: "Set_has s x \<longleftrightarrow> x \<in> set s"
  by (simp add: Set_has_def)

lemma set_Set_add: "set (Set_add x s) = insert x (set s)"
  by (auto simp: Set_add_def)

lemma set_Set_delete: "set (Set_delete x s) = set s - {x}"
  by (auto simp: Set_delete_def)

lemma set_fold_Set_add: "set (fold Set_add data s) = set data \<union> set s"
  by (induction data arbitrary: s) (auto simp: set_Set_add)

lemma emit_fields:
  "dryRun (emit e st) = dryRun st"
  "printedTasks (emit e st) = printedTasks st"
  "escpos (emit e st) = escpos st"
  "printerType (emit e st) = printerType st"
  "cacheFile (emit e st) = cacheFile st"
  "writeError (emit e st) = writeError st"
  "device (emit e st) = device st"
  "attempts (emit e st) = attempts st"
  "trace (emit e st) = trace st @ [e]"
  by (simp_all add: emit_def)

lemma sleep_fields:
  "dryRun (sleep ms st) = dryRun st"
  "printedTasks (sleep ms st) = printedTasks st"
  "escpos (sleep ms st) = escpos st"
  "printerType (sleep ms st) = printerType st"
  "cacheFile (sleep ms st) = cacheFile st"
  "writeError (sleep ms st) = writeError st"
  "device (sleep ms st) = device st"
  "attempts (sleep ms st) = attempts st"
  "trace (sleep ms st) = trace st @ [Sleep ms]"
  by (simp_all add: sleep_def emit_fields)

lemma savePrintedTasks_fields:
  "dryRun (savePrintedTasks st) = dryRun st"
  "printedTasks (savePrintedTasks st) = printedTasks st"
  "escpos (savePrintedTasks st) = escpos st"
  "printerType (savePrintedTasks st) = printerType st"
  "writeError (savePrintedTasks st) = writeError st"
  "device (savePrintedTasks st) = device st"
  "attempts (savePrintedTasks st) = attempts st"
  by (simp_all add: savePrintedTasks_def emit_fields split: option.splits write_fault.splits)

lemma savePrintedTasks_file:
  "cacheFile (savePrintedTasks st) =
     (case writeError st of
        None \<Rightarrow> JsonIds (printedTasks st)
      | Some (FailsAtOpen msg) \<Rightarrow> cacheFile st
      | Some (FailsAfterTruncate msg remains) \<Rightarrow> Unreadable remains)"
  by (simp add: savePrintedTasks_def emit_fields split: option.splits write_fault.splits)

lemma savePrintedTasks_trace:
  "trace (savePrintedTasks st) =
     (case writeError st of
        None \<Rightarrow> trace st
      | Some (FailsAtOpen msg) \<Rightarrow>
          trace st @ [ConsoleWarn (''Could not save printed tasks cache: '' @ msg)]
      | Some (FailsAfterTruncate msg remains) \<Rightarrow>
          trace st @ [ConsoleWarn (''Could not save printed tasks cache: '' @ msg)])"
  by (simp add: savePrintedTasks_def emit_fields split: option.splits write_fault.splits)

lemma persisted_eq:
  "persisted st = (case cacheFile st of JsonIds data \<Rightarrow> set data | _ \<Rightarrow> {})"
  by (simp add: persisted_def PrinterService_def loadPrintedTasks_def emit_fields
      set_fold_Set_add Let_def split: cache_file.splits)

lemma PrinterService_fields:
  "dryRun (PrinterService dry env) = dry"
  "escpos (PrinterService dry env) = (\<not> dry)"
  "set (printedTasks (PrinterService dry env)) = persisted env"
  "cacheFile (PrinterService dry env) = cacheFile env"
  "device (PrinterService dry env) = device env"
  "attempts (PrinterService dry env) = attempts env"
  "print_ops (PrinterService dry env) = print_ops env"
  by (simp_all add: PrinterService_def loadPrintedTasks_def persisted_def emit_fields Let_def
      print_ops_def split: cache_file.splits)

lemma markPrinted_fields:
  "dryRun (markPrinted tid st) = dryRun st"
  "printedTasks (markPrinted tid st) = Set_add tid (printedTasks st)"
  "escpos (markPrinted tid st) = escpos st"
  "printerType (markPrinted tid st) = printerType st"
  "writeError (markPrinted tid st) = writeError st"
  "device (markPrinted tid st) = device st"
  "attempts (markPrinted tid st) = attempts st"
  by (simp_all add: markPrinted_def savePrintedTasks_fields)

lemma markPrinted_file:
  "cacheFile (markPrinted tid st) =
     (case writeError st of
        None \<Rightarrow> JsonIds (Set_add tid (printedTasks st))
      | Some (FailsAtOpen msg) \<Rightarrow> cacheFile st
      | Some (FailsAfterTruncate msg remains) \<Rightarrow> Unreadable remains)"
  by (simp add: markPrinted_def savePrintedTasks_file split: option.splits write_fault.splits)

lemma markPrinted_trace:
  "trace (markPrinted tid st) =
     (case writeError st of
        None \<Rightarrow> trace st
      | Some (FailsAtOpen msg) \<Rightarrow>
          trace st @ [ConsoleWarn (''Could not save printed tasks cache: '' @ msg)]
      | Some (FailsAfterTruncate msg remains) \<Rightarrow>
          trace st @ [ConsoleWarn (''Could not save printed tasks cache: '' @ msg)])"
  by (simp add: markPrinted_def savePrintedTasks_trace split: option.splits write_fault.splits)

lemma write_truncates_iff:
  "write_truncates st \<longleftrightarrow> (\<exists>msg remains. writeError st = Some (FailsAfterTruncate msg remains))"
  by (simp add: write_truncates_def split: option.splits write_fault.splits)


section \<open>The dedup cache\<close>

text \<open>
  C3, as stated, fails: when \<open>writeFileSync\<close> raises, \<open>savePrintedTasks\<close> catches the
  exception and only warns, so \<open>markPrinted\<close> returns and a restart does not find the
  identifier. Here the file system refuses to open the file for writing.
\<close>

theorem markPrinted_not_durable_counterexample:
  "''T1'' \<notin> persisted (markPrinted ''T1'' (env0\<lparr>writeError := Some (FailsAtOpen ''EACCES'')\<rparr>))"
  by (simp add: persisted_eq markPrinted_file env0_def)

text \<open>
  C3, amended: \<open>markPrinted id\<close> always adds \<open>id\<close> to the in-memory set and then tries to
  rewrite the cache file with the full set. When the write succeeds, the file holds the
  full in-memory set and loading the cache from the file, as a restart does, yields that
  set, which contains \<open>id\<close>. When the write fails, \<open>markPrinted\<close> still returns, after one
  console warning: if the file could not be opened it is left as it was, and if the write
  failed after the open the file is left truncated, so that a restart loads nothing.
\<close>

theorem markPrinted_durable:
  "printedTasks (markPrinted tid st) = Set_add tid (printedTasks st) \<and>
   tid \<in> set (printedTasks (markPrinted tid st)) \<and>
   (writeError st = None \<longrightarrow>
      cacheFile (markPrinted tid st) = JsonIds (printedTasks (markPrinted tid st)) \<and>
      persisted (markPrinted tid st) = set (printedTasks (markPrinted tid st)) \<and>
      tid \<in> persisted (markPrinted tid st) \<and>
      trace (markPrinted tid st) = trace st) \<and>
   (\<forall>msg. writeError st = Some (FailsAtOpen msg) \<longrightarrow>
      cacheFile (markPrinted tid st) = cacheFile st \<and>
      persisted (markPrinted tid st) = persisted st \<and>
      trace (markPrinted tid st)
        = trace st @ [ConsoleWarn (''Could not save printed tasks cache: '' @ msg)]) \<and>
   (\<forall>msg remains. writeError st = Some (FailsAfterTruncate msg remains) \<longrightarrow>
      cacheFile (markPrinted tid st) = Unreadable remains \<and>
      persisted (markPrinted tid st) = {} \<and>
      trace (markPrinted tid st)
        = trace st @ [ConsoleWarn (''Could not save printed tasks cache: '' @ msg)])"
  by (simp add: markPrinted_fields markPrinted_file markPrinted_trace persisted_eq set_Set_add)

theorem markPrinted_durable_witness:
  "writeError env0 = None \<and>
   ''T1'' \<in> set (printedTasks (markPrinted ''T1'' env0)) \<and>
   ''T1'' \<in> persisted (markPrinted ''T1'' env0) \<and>
   cacheFile (markPrinted ''T1'' env0) = JsonIds [''T1''] \<and>
   writeError (env0\<lparr>cacheFile := JsonIds [''T0''], writeError := Some (FailsAtOpen ''EACCES'')\<rparr>)
     = Some (FailsAtOpen ''EACCES'') \<and>
   persisted (markPrinted ''T1''
     (env0\<lparr>cacheFile := JsonIds [''T0''], writeError := Some (FailsAtOpen ''EACCES'')\<rparr>)) = {''T0''} \<and>
   writeError (env0\<lparr>cacheFile := JsonIds [''T0''],
                    writeError := Some (FailsAfterTruncate ''ENOSPC'' ''Unexpected end of JSON input'')\<rparr>)
     = Some (FailsAfterTruncate ''ENOSPC'' ''Unexpected end of JSON input'') \<and>
   persisted (markPrinted ''T1''
     (env0\<lparr>cacheFile := JsonIds [''T0''],
           writeError := Some (FailsAfterTruncate ''ENOSPC'' ''Unexpected end of JSON input'')\<rparr>)) = {}"
  using markPrinted_durable [of "''T1''" env0]
    markPrinted_durable [of "''T1''"
      "env0\<lparr>cacheFile := JsonIds [''T0''], writeError := Some (FailsAtOpen ''EACCES'')\<rparr>"]
    markPrinted_durable [of "''T1''"
      "env0\<lparr>cacheFile := JsonIds [''T0''],
            writeError := Some (FailsAfterTruncate ''ENOSPC'' ''Unexpected end of JSON input'')\<rparr>"]
  by (simp add: env0_def markPrinted_fields Set_add_def persisted_eq)


section \<open>printTask and the dispatch loop\<close>

lemma printTask_skip:
  "taskId t \<in> set (printedTasks st) \<Longrightarrow>
   printTask t st = (Inr False, emit (ConsoleLog (''[SKIP] '' @ taskId t @ '' already printed'')) st)"
  by (simp add: printTask_def isAlreadyPrinted_def Set_has_def)

lemma printTask_dry:
  "taskId t \<notin> set (printedTasks st) \<Longrightarrow> dryRun st \<Longrightarrow>
   printTask t st =
     (Inr True, emit (Preview t) (emit (ConsoleLog (''[DRY-RUN] Simulating print for '' @ taskId t)) st))"
  by (simp add: printTask_def isAlreadyPrinted_def Set_has_def simulatePrint_def)

lemma printTask_no_escpos:
  assumes "taskId t \<notin> set (printedTasks st)" and "\<not> dryRun st" and "\<not> escpos st"
  shows "printTask t st =
     (Inl (Error (undefined_read_message
                    (case printerType st of USB \<Rightarrow> ''USB'' | Network \<Rightarrow> ''Printer''))), st)"
  using assms by (simp add: printTask_def isAlreadyPrinted_def Set_has_def)

lemma printTask_real:
  assumes "taskId t \<notin> set (printedTasks st)" and "\<not> dryRun st" and "escpos st"
  shows "printTask t st =
     (let st1 = emit (PrintOp t (device st (attempts st))) (st\<lparr>attempts := attempts st + 1\<rparr>)
      in case device st (attempts st) of
           DeviceUnavailable msg \<Rightarrow> (Inl (Error msg), st1)
         | OpenFailed msg \<Rightarrow>
             (Inl (Error msg), emit (ConsoleError (''[ERROR] Could not open printer: '' @ msg)) st1)
         | PrintFailed msg \<Rightarrow>
             (Inl (Error msg),
              emit (ConsoleError (''[ERROR] Print failed for '' @ taskId t @ '': '' @ msg)) st1)
         | Printed \<Rightarrow>
             (Inr True,
              emit (ConsoleLog (''[PRINT] '' @ taskId t @ '': '' @ truncate_str (title t) 40))
                (markPrinted (taskId t) st1)))"
  using assms by (simp add: printTask_def isAlreadyPrinted_def Set_has_def Let_def)

lemma printTask_frame:
  "dryRun (snd (printTask t st)) = dryRun st"
  "escpos (snd (printTask t st)) = escpos st"
  "printerType (snd (printTask t st)) = printerType st"
  "writeError (snd (printTask t st)) = writeError st"
  "device (snd (printTask t st)) = device st"
  by (simp_all add: printTask_def Let_def emit_fields markPrinted_fields simulatePrint_def
      split: print_outcome.splits)

lemma printTask_printedTasks:
  "printedTasks (snd (printTask t st)) =
     (if fst (printTask t st) = Inr True \<and> \<not> dryRun st
      then Set_add (taskId t) (printedTasks st) else printedTasks st)"
  by (simp add: printTask_def Let_def emit_fields markPrinted_fields simulatePrint_def
      split: print_outcome.splits)

lemma printTask_mono: "set (printedTasks st) \<subseteq> set (printedTasks (snd (printTask t st)))"
  by (auto simp: printTask_printedTasks set_Set_add)

lemma printTask_failed:
  assumes "fst (printTask t st) = Inl err"
  shows "printedTasks (snd (printTask t st)) = printedTasks st"
    and "cacheFile (snd (printTask t st)) = cacheFile st"
  using assms
  by (auto simp: printTask_def Let_def emit_fields print_ops_def
      split: print_outcome.splits if_splits)

lemma printTask_no_wait: "waits (snd (printTask t st)) = waits st"
  by (simp add: printTask_def Let_def emit_fields markPrinted_def savePrintedTasks_def
      simulatePrint_def waits_def split: print_outcome.splits option.splits write_fault.splits)

lemma printTask_persisted:
  assumes "x \<in> persisted st" and "x \<in> set (printedTasks st) \<or> x = taskId t"
    and "\<not> write_truncates st"
  shows "x \<in> persisted (snd (printTask t st))"
  using assms
  by (auto simp: printTask_def Let_def emit_fields markPrinted_file persisted_eq set_Set_add
      simulatePrint_def write_truncates_def
      split: print_outcome.splits option.splits cache_file.splits write_fault.splits)

lemma printTask_new_ops:
  "\<exists>new. print_ops (snd (printTask t st)) = print_ops st @ new \<and>
         (\<forall>t' out. PrintOp t' out \<in> set new \<longrightarrow> t' = t \<and> taskId t \<notin> set (printedTasks st) \<and> \<not> dryRun st)"
  by (auto simp: printTask_def Let_def emit_fields markPrinted_def savePrintedTasks_def
      simulatePrint_def print_ops_def isAlreadyPrinted_def Set_has_def
      split: print_outcome.splits option.splits write_fault.splits)

lemma printTasks_loop_simps:
  "printTasks_loop heap tasks d [] acc = acc"
  "printTasks_loop heap tasks d (r # rest) acc =
     printTasks_loop heap tasks d rest (printTasks_body heap tasks d r acc)"
  "printTasks_loop heap tasks d (pre @ post) acc =
     printTasks_loop heap tasks d post (printTasks_loop heap tasks d pre acc)"
  by (simp_all add: printTasks_loop_def)

text \<open>What one turn of the loop does, in terms of the result of printTask.\<close>

lemma body_eq:
  "printTasks_body heap tasks d r (n, st) =
     (case printTask (heap r) st of
        (Inr True, st1) \<Rightarrow>
          (n + 1, if indexOf tasks r < int (length tasks) - 1 then sleep d st1 else st1)
      | (Inr False, st1) \<Rightarrow> (n, st1)
      | (Inl err, st1) \<Rightarrow>
          (n, emit (ConsoleError (''[ERROR] Failed to print '' @ taskId (heap r) @ '': ''
                                  @ message err)) st1))"
  by (simp add: printTasks_body_def split: prod.splits sum.splits bool.splits)

lemma body_frame:
  "dryRun (snd (printTasks_body heap tasks d r (n, st))) = dryRun st"
  "writeError (snd (printTasks_body heap tasks d r (n, st))) = writeError st"
  "device (snd (printTasks_body heap tasks d r (n, st))) = device st"
  "escpos (snd (printTasks_body heap tasks d r (n, st))) = escpos st"
  "printerType (snd (printTasks_body heap tasks d r (n, st))) = printerType st"
  using printTask_frame[of "heap r" st]
  by (auto simp: printTasks_body_def emit_fields sleep_fields split: prod.splits sum.splits)

lemma body_state:
  "printedTasks (snd (printTasks_body heap tasks d r (n, st))) = printedTasks (snd (printTask (heap r) st))"
  "cacheFile (snd (printTasks_body heap tasks d r (n, st))) = cacheFile (snd (printTask (heap r) st))"
  "attempts (snd (printTasks_body heap tasks d r (n, st))) = attempts (snd (printTask (heap r) st))"
  "print_ops (snd (printTasks_body heap tasks d r (n, st))) = print_ops (snd (printTask (heap r) st))"
  "persisted (snd (printTasks_body heap tasks d r (n, st))) = persisted (snd (printTask (heap r) st))"
  by (auto simp: printTasks_body_def emit_fields sleep_fields print_ops_def persisted_eq
      split: prod.splits sum.splits)

lemma body_count:
  "fst (printTasks_body heap tasks d r (n, st)) =
     n + (if fst (printTask (heap r) st) = Inr True then 1 else 0)"
  by (auto simp: printTasks_body_def split: prod.splits sum.splits)

lemma body_skip:
  "taskId (heap r) \<in> set (printedTasks st) \<Longrightarrow>
   printTasks_body heap tasks d r (n, st) =
     (n, emit (ConsoleLog (''[SKIP] '' @ taskId (heap r) @ '' already printed'')) st)"
  by (simp add: printTasks_body_def printTask_skip)

lemma loop_frame:
  "dryRun (snd (printTasks_loop heap tasks d rest (n, st))) = dryRun st \<and>
   writeError (snd (printTasks_loop heap tasks d rest (n, st))) = writeError st \<and>
   device (snd (printTasks_loop heap tasks d rest (n, st))) = device st"
proof (induction rest arbitrary: n st)
  case Nil
  show ?case by (simp add: printTasks_loop_simps)
next
  case (Cons r rest)
  obtain n1 st1 where b: "printTasks_body heap tasks d r (n, st) = (n1, st1)"
    by (cases "printTasks_body heap tasks d r (n, st)")
  from body_frame[of heap tasks d r n st] b
  have "dryRun st1 = dryRun st" "writeError st1 = writeError st" "device st1 = device st"
    by simp_all
  with Cons.IH[of n1 st1] b show ?case by (simp add: printTasks_loop_simps)
qed

text \<open>
  The invariant of the loop for a set \<open>C\<close> of identifiers held in the cache: they stay in
  the cache (and, if persisted, persisted, unless a write truncates the file); no task with
  such an identifier is counted or sent to the print operation.
\<close>

lemma body_cached:
  assumes "C \<subseteq> set (printedTasks st)"
    and "printTasks_body heap tasks d r (n, st) = (n1, st1)"
  shows "C \<subseteq> set (printedTasks st1)"
    and "\<not> write_truncates st \<Longrightarrow> C \<inter> persisted st \<subseteq> persisted st1"
    and "n1 \<le> n + (if taskId (heap r) \<in> C then 0 else 1)"
    and "\<exists>new. print_ops st1 = print_ops st @ new \<and>
           (\<forall>t out. PrintOp t out \<in> set new \<longrightarrow> taskId t \<notin> C)"
proof -
  from assms(2) have st1: "st1 = snd (printTasks_body heap tasks d r (n, st))"
    and n1: "n1 = fst (printTasks_body heap tasks d r (n, st))" by simp_all
  show "C \<subseteq> set (printedTasks st1)"
    using assms(1) printTask_mono[of st "heap r"] by (auto simp: st1 body_state)
  show "C \<inter> persisted st \<subseteq> persisted st1" if "\<not> write_truncates st"
    using that assms(1) printTask_persisted[of _ st "heap r"] by (auto simp: st1 body_state)
  show "n1 \<le> n + (if taskId (heap r) \<in> C then 0 else 1)"
    using assms(1) by (auto simp: n1 body_count printTask_skip)
  from printTask_new_ops[of "heap r" st] assms(1)
  show "\<exists>new. print_ops st1 = print_ops st @ new \<and>
           (\<forall>t out. PrintOp t out \<in> set new \<longrightarrow> taskId t \<notin> C)"
    unfolding st1 body_state by blast
qed

lemma loop_cached:
  assumes "C \<subseteq> set (printedTasks st)"
    and "printTasks_loop heap tasks d rest (n, st) = (n', st')"
  shows "C \<subseteq> set (printedTasks st') \<and>
         (\<not> write_truncates st \<longrightarrow> C \<inter> persisted st \<subseteq> persisted st') \<and>
         n' \<le> n + length (filter (\<lambda>r. taskId (heap r) \<notin> C) rest) \<and>
         (\<exists>new. print_ops st' = print_ops st @ new \<and>
            (\<forall>t out. PrintOp t out \<in> set new \<longrightarrow> taskId t \<notin> C))"
  using assms
proof (induction rest arbitrary: n st)
  case Nil
  then show ?case by (simp add: printTasks_loop_simps)
next
  case (Cons r rest)
  obtain n1 st1 where b: "printTasks_body heap tasks d r (n, st) = (n1, st1)"
    by (cases "printTasks_body heap tasks d r (n, st)")
  note step = body_cached[OF Cons.prems(1) b]
  from Cons.prems(2) b have l: "printTasks_loop heap tasks d rest (n1, st1) = (n', st')"
    by (simp add: printTasks_loop_simps)
  note ih = Cons.IH[OF step(1) l]
  from step(4) obtain new1 where new1: "print_ops st1 = print_ops st @ new1"
    "\<forall>t out. PrintOp t out \<in> set new1 \<longrightarrow> taskId t \<notin> C" by blast
  from ih obtain new2 where new2: "print_ops st' = print_ops st1 @ new2"
    "\<forall>t out. PrintOp t out \<in> set new2 \<longrightarrow> taskId t \<notin> C" by blast
  have "print_ops st' = print_ops st @ (new1 @ new2)" using new1 new2 by simp
  moreover have "\<forall>t out. PrintOp t out \<in> set (new1 @ new2) \<longrightarrow> taskId t \<notin> C"
    using new1 new2 by auto
  ultimately have ops: "\<exists>new. print_ops st' = print_ops st @ new \<and>
            (\<forall>t out. PrintOp t out \<in> set new \<longrightarrow> taskId t \<notin> C)" by blast
  have cnt: "n' \<le> n + length (filter (\<lambda>r. taskId (heap r) \<notin> C) (r # rest))"
    using ih step(3) by (auto split: if_splits)
  from body_frame(2)[of heap tasks d r n st] b
  have wt: "write_truncates st1 = write_truncates st" by (simp add: write_truncates_def)
  have per: "\<not> write_truncates st \<longrightarrow> C \<inter> persisted st \<subseteq> persisted st'"
    using ih step(2) wt by blast
  from ih ops cnt per show ?case by blast
qed

lemma printTask_in_dry:
  assumes "dryRun st"
  shows "printedTasks (snd (printTask t st)) = printedTasks st"
    and "cacheFile (snd (printTask t st)) = cacheFile st"
    and "attempts (snd (printTask t st)) = attempts st"
    and "print_ops (snd (printTask t st)) = print_ops st"
    and "fst (printTask t st) = Inr (taskId t \<notin> set (printedTasks st))"
  using assms
  by (simp_all add: printTask_def isAlreadyPrinted_def Set_has_def simulatePrint_def emit_fields
      print_ops_def)

lemma loop_dry:
  assumes "dryRun st"
    and "printTasks_loop heap tasks d rest (n, st) = (n', st')"
  shows "n' = n + length (filter (\<lambda>r. taskId (heap r) \<notin> set (printedTasks st)) rest) \<and>
         printedTasks st' = printedTasks st \<and> cacheFile st' = cacheFile st \<and>
         attempts st' = attempts st \<and> print_ops st' = print_ops st"
  using assms
proof (induction rest arbitrary: n st)
  case Nil
  then show ?case by (simp add: printTasks_loop_simps)
next
  case (Cons r rest)
  obtain n1 st1 where b: "printTasks_body heap tasks d r (n, st) = (n1, st1)"
    by (cases "printTasks_body heap tasks d r (n, st)")
  from b have st1: "st1 = snd (printTasks_body heap tasks d r (n, st))"
    and n1: "n1 = fst (printTasks_body heap tasks d r (n, st))" by simp_all
  have dry1: "dryRun st1" using Cons.prems(1) by (simp add: st1 body_frame)
  have same: "printedTasks st1 = printedTasks st" "cacheFile st1 = cacheFile st"
    "attempts st1 = attempts st" "print_ops st1 = print_ops st"
    using printTask_in_dry[OF Cons.prems(1), of "heap r"] by (simp_all add: st1 body_state)
  have cnt: "n1 = n + (if taskId (heap r) \<notin> set (printedTasks st) then 1 else 0)"
    using printTask_in_dry(5)[OF Cons.prems(1), of "heap r"] by (simp add: n1 body_count)
  from Cons.prems(2) b have l: "printTasks_loop heap tasks d rest (n1, st1) = (n', st')"
    by (simp add: printTasks_loop_simps)
  from Cons.IH[OF dry1 l] same cnt show ?case by simp
qed

lemma printTasks_dry:
  assumes "dryRun st"
  shows "fst (printTasks heap tasks d st) =
           length (filter (\<lambda>r. taskId (heap r) \<notin> set (printedTasks st)) tasks)"
    and "print_ops (snd (printTasks heap tasks d st)) = print_ops st"
    and "attempts (snd (printTasks heap tasks d st)) = attempts st"
    and "printedTasks (snd (printTasks heap tasks d st)) = printedTasks st"
    and "cacheFile (snd (printTasks heap tasks d st)) = cacheFile st"
proof -
  obtain n' st' where w: "printTasks_loop heap tasks d tasks (0, st) = (n', st')"
    by (cases "printTasks_loop heap tasks d tasks (0, st)")
  from loop_dry[OF assms w]
  show "fst (printTasks heap tasks d st) =
           length (filter (\<lambda>r. taskId (heap r) \<notin> set (printedTasks st)) tasks)"
    and "print_ops (snd (printTasks heap tasks d st)) = print_ops st"
    and "attempts (snd (printTasks heap tasks d st)) = attempts st"
    and "printedTasks (snd (printTasks heap tasks d st)) = printedTasks st"
    and "cacheFile (snd (printTasks heap tasks d st)) = cacheFile st"
    by (simp_all add: printTasks_def w)
qed

lemma printTasks_single_real:
  assumes "\<not> dryRun s" and "taskId (heap r) \<notin> set (printedTasks s)" and "escpos s"
  shows "print_ops (snd (printTasks heap [r] d s)) =
           print_ops s @ [PrintOp (heap r) (device s (attempts s))]"
    and "fst (printTasks heap [r] d s) = (if device s (attempts s) = Printed then 1 else 0)"
    and "attempts (snd (printTasks heap [r] d s)) = attempts s + 1"
  using assms
  by (auto simp: printTasks_def printTasks_loop_simps body_eq printTask_real Let_def emit_fields
      print_ops_def markPrinted_def savePrintedTasks_def
      split: print_outcome.splits option.splits write_fault.splits)

lemma indexOf_ge: "- 1 \<le> indexOf xs x"
  by (induction xs) (auto simp: Let_def)

lemma indexOf_fresh: "r \<notin> set pre \<Longrightarrow> indexOf (pre @ r # post) r = int (length pre)"
  by (induction pre) (auto simp: Let_def)

text \<open>Unfolding everything, to run the service on sample values.\<close>

lemmas run_defs =
  printTasks_def printTasks_loop_def printTasks_body_def printTask_def printTest_def
  isAlreadyPrinted_def Set_has_def Set_add_def Set_delete_def ticket_def testTask_def
  string_of_nat.simps digit_char_def emit_def markPrinted_def savePrintedTasks_def sleep_def
  simulatePrint_def truncate_str_def Let_def env0_def print_ops_def waits_def


section \<open>Dispatch: skipping, dry run, failures, waits\<close>

text \<open>
  C1: when the identifier of task \<open>T\<close> (the object at \<open>r\<close>) is in the dedup cache at the
  start of \<open>printTasks\<close>, the turn of the loop for \<open>T\<close> passes the count on unchanged and
  changes nothing but the console, where it writes the \<open>[SKIP]\<close> line; the returned count is
  at most the number of tasks whose identifier was not in the cache; and none of the runs of
  the external print operation made by the dispatch is for \<open>T\<close>, or for any task with the
  identifier of \<open>T\<close>.
\<close>

theorem printTasks_skips_printed:
  assumes "taskId (heap r) \<in> set (printedTasks st)"
  shows "printTasks heap (pre @ r # post) d st =
           (case printTasks_loop heap (pre @ r # post) d pre (0, st) of
              (n, st1) \<Rightarrow>
                printTasks_loop heap (pre @ r # post) d post
                  (n, emit (ConsoleLog (''[SKIP] '' @ taskId (heap r) @ '' already printed'')) st1)) \<and>
         fst (printTasks heap (pre @ r # post) d st)
           \<le> length (filter (\<lambda>q. taskId (heap q) \<notin> set (printedTasks st)) (pre @ r # post)) \<and>
         (\<exists>new. print_ops (snd (printTasks heap (pre @ r # post) d st)) = print_ops st @ new \<and>
                (\<forall>t out. PrintOp t out \<in> set new \<longrightarrow> taskId t \<noteq> taskId (heap r)))"
proof -
  let ?tasks = "pre @ r # post"
  obtain n st1 where l: "printTasks_loop heap ?tasks d pre (0, st) = (n, st1)"
    by (cases "printTasks_loop heap ?tasks d pre (0, st)")
  from loop_cached[OF subset_refl l] assms
  have "taskId (heap r) \<in> set (printedTasks st1)" by auto
  then have eq: "printTasks heap ?tasks d st =
      printTasks_loop heap ?tasks d post
        (n, emit (ConsoleLog (''[SKIP] '' @ taskId (heap r) @ '' already printed'')) st1)"
    by (simp add: printTasks_def printTasks_loop_simps l body_skip)
  obtain n' st' where w: "printTasks_loop heap ?tasks d ?tasks (0, st) = (n', st')"
    by (cases "printTasks_loop heap ?tasks d ?tasks (0, st)")
  from loop_cached[OF subset_refl w]
  obtain new where cnt: "n' \<le> length (filter (\<lambda>q. taskId (heap q) \<notin> set (printedTasks st)) ?tasks)"
    and new: "print_ops st' = print_ops st @ new"
      "\<forall>t out. PrintOp t out \<in> set new \<longrightarrow> taskId t \<notin> set (printedTasks st)"
    by auto
  from new(2) assms have "\<forall>t out. PrintOp t out \<in> set new \<longrightarrow> taskId t \<noteq> taskId (heap r)"
    by auto
  with new(1) cnt
  have "n' \<le> length (filter (\<lambda>q. taskId (heap q) \<notin> set (printedTasks st)) ?tasks)"
    and "\<exists>new. print_ops st' = print_ops st @ new \<and>
           (\<forall>t out. PrintOp t out \<in> set new \<longrightarrow> taskId t \<noteq> taskId (heap r))"
    by blast+
  then have c2: "fst (printTasks heap ?tasks d st)
           \<le> length (filter (\<lambda>q. taskId (heap q) \<notin> set (printedTasks st)) ?tasks)"
    and c3: "\<exists>new. print_ops (snd (printTasks heap ?tasks d st)) = print_ops st @ new \<and>
                (\<forall>t out. PrintOp t out \<in> set new \<longrightarrow> taskId t \<noteq> taskId (heap r))"
    by (simp_all only: printTasks_def w fst_conv snd_conv)
  have c1: "printTasks heap ?tasks d st =
           (case printTasks_loop heap ?tasks d pre (0, st) of
              (n, st1) \<Rightarrow>
                printTasks_loop heap ?tasks d post
                  (n, emit (ConsoleLog (''[SKIP] '' @ taskId (heap r) @ '' already printed'')) st1))"
    by (simp only: eq l prod.case)
  from c1 c2 c3 show ?thesis by (intro conjI)
qed

theorem printTasks_skips_printed_witness:
  "taskId (ticket 1) \<in> set (printedTasks (env0\<lparr>printedTasks := [''T1'']\<rparr>)) \<and>
   fst (printTasks ticket ([] @ 1 # [2]) 1000 (env0\<lparr>printedTasks := [''T1'']\<rparr>)) = 1 \<and>
   print_ops (snd (printTasks ticket ([] @ 1 # [2]) 1000 (env0\<lparr>printedTasks := [''T1'']\<rparr>)))
     = [PrintOp (ticket 2) Printed] \<and>
   (\<forall>out. PrintOp (ticket 1) out
      \<notin> set (print_ops (snd (printTasks ticket ([] @ 1 # [2]) 1000
                                 (env0\<lparr>printedTasks := [''T1'']\<rparr>)))))"
proof -
  have h: "taskId (ticket 1) \<in> set (printedTasks (env0\<lparr>printedTasks := [''T1'']\<rparr>))"
    by (simp add: run_defs)
  have e: "print_ops (env0\<lparr>printedTasks := [''T1'']\<rparr>) = []"
    by (simp add: run_defs)
  have c: "fst (printTasks ticket ([] @ 1 # [2]) 1000 (env0\<lparr>printedTasks := [''T1'']\<rparr>)) = 1"
    by (simp add: run_defs)
  have p: "print_ops (snd (printTasks ticket ([] @ 1 # [2]) 1000 (env0\<lparr>printedTasks := [''T1'']\<rparr>)))
     = [PrintOp (ticket 2) Printed]"
    by (simp add: run_defs)
  from printTasks_skips_printed[where heap = ticket and r = 1
      and st = "env0\<lparr>printedTasks := [''T1'']\<rparr>" and pre = "[]" and post = "[2]" and d = 1000, OF h]
  obtain new where n1: "print_ops (snd (printTasks ticket ([] @ 1 # [2]) 1000
                                     (env0\<lparr>printedTasks := [''T1'']\<rparr>)))
                        = print_ops (env0\<lparr>printedTasks := [''T1'']\<rparr>) @ new"
    and n2: "\<forall>t out. PrintOp t out \<in> set new \<longrightarrow> taskId t \<noteq> taskId (ticket 1)"
    by blast
  from n2 have "\<forall>out. PrintOp (ticket 1) out \<notin> set new" by blast
  with n1 e have "\<forall>out. PrintOp (ticket 1) out
      \<notin> set (print_ops (snd (printTasks ticket ([] @ 1 # [2]) 1000
                                 (env0\<lparr>printedTasks := [''T1'']\<rparr>))))"
    by simp
  with h c p show ?thesis by blast
qed

text \<open>
  C4: in dry-run mode a dispatch of any array leaves the dedup cache, the cache file and
  the runs of the print operation as they were (\<open>markPrinted\<close> is never called); so for a
  task \<open>T\<close> whose identifier is not in the cache, a following dispatch of \<open>T\<close> in real mode
  runs the external print operation exactly once, for \<open>T\<close>. A service in real mode is one
  constructed with \<open>dryRun\<close> off: it loads the cache file, which the dry run has left as
  it was, so \<open>T\<close> is printed when the file does not hold its identifier either.
\<close>

theorem dry_run_does_not_suppress:
  assumes "dryRun st" and "taskId (heap r) \<notin> set (printedTasks st)"
  shows "case printTasks heap tasks d st of
           (n1, st1) \<Rightarrow>
             printedTasks st1 = printedTasks st \<and> cacheFile st1 = cacheFile st \<and>
             print_ops st1 = print_ops st \<and>
             (taskId (heap r) \<notin> persisted st \<longrightarrow>
                (case printTasks heap [r] d' (PrinterService False st1) of
                   (n2, st2) \<Rightarrow>
                     print_ops st2 = print_ops st @ [PrintOp (heap r) (device st (attempts st))] \<and>
                     n2 = (if device st (attempts st) = Printed then 1 else 0)))"
proof -
  obtain n1 st1 where w: "printTasks heap tasks d st = (n1, st1)"
    by (cases "printTasks heap tasks d st")
  from printTasks_dry[OF assms(1), of heap tasks d] w
  have same: "printedTasks st1 = printedTasks st" "cacheFile st1 = cacheFile st"
    "print_ops st1 = print_ops st" "attempts st1 = attempts st" by simp_all
  from loop_frame[of heap tasks d tasks 0 st] w have dev: "device st1 = device st"
    by (simp add: printTasks_def)
  have per: "persisted st1 = persisted st" using same by (simp add: persisted_eq)
  let ?f = "PrinterService False st1"
  obtain n2 st2 where w2: "printTasks heap [r] d' ?f = (n2, st2)"
    by (cases "printTasks heap [r] d' ?f")
  have restart: "print_ops st2 = print_ops st @ [PrintOp (heap r) (device st (attempts st))] \<and>
      n2 = (if device st (attempts st) = Printed then 1 else 0)"
    if "taskId (heap r) \<notin> persisted st"
  proof -
    have b: "\<not> dryRun ?f" "taskId (heap r) \<notin> set (printedTasks ?f)" "escpos ?f"
      using that per by (simp_all add: PrinterService_fields)
    from printTasks_single_real(1,2)[where s = ?f and heap = heap and r = r and d = d', OF b]
      w2 same dev
    show ?thesis by (simp add: PrinterService_fields)
  qed
  from same restart show ?thesis by (simp add: w w2)
qed

theorem dry_run_does_not_suppress_witness:
  "dryRun (PrinterService True env0) \<and>
   taskId (ticket 1) \<notin> set (printedTasks (PrinterService True env0)) \<and>
   taskId (ticket 1) \<notin> persisted (PrinterService True env0) \<and>
   (case printTasks ticket [1] 1000 (PrinterService True env0) of
      (n1, st1) \<Rightarrow>
        printedTasks st1 = [] \<and> cacheFile st1 = NoFile \<and> print_ops st1 = [] \<and>
        (case printTasks ticket [1] 1000 (PrinterService False st1) of
           (n2, st2) \<Rightarrow> print_ops st2 = [PrintOp (ticket 1) Printed] \<and> n2 = 1))"
proof -
  have q: "printedTasks (PrinterService True env0) = []"
    "cacheFile (PrinterService True env0) = NoFile"
    "print_ops (PrinterService True env0) = []"
    "device (PrinterService True env0) (attempts (PrinterService True env0)) = Printed"
    by (simp_all add: PrinterService_def loadPrintedTasks_def env0_def print_ops_def)
  have h1: "dryRun (PrinterService True env0)" by (simp add: PrinterService_fields)
  have h2: "taskId (ticket 1) \<notin> set (printedTasks (PrinterService True env0))"
    by (simp add: q)
  have h3: "taskId (ticket 1) \<notin> persisted (PrinterService True env0)"
    by (simp add: persisted_eq q)
  from dry_run_does_not_suppress[where heap = ticket and r = 1
      and st = "PrinterService True env0" and tasks = "[1]" and d = 1000 and d' = 1000,
      OF h1 h2] h1 h2 h3
  show ?thesis by (simp add: q)
qed

text \<open>
  No code of the repository changes \<open>dryRun\<close> after the construction. A service built for
  a dry run never loads \<open>escpos\<close>: were its \<open>dryRun\<close> field switched off afterwards,
  \<open>printTask\<close> would raise before reaching any device, and nothing would be printed or
  marked.
\<close>

lemma dry_run_service_switched_to_real:
  assumes "taskId t \<notin> persisted env"
  shows "printTask t ((PrinterService True env)\<lparr>dryRun := False\<rparr>) =
           (Inl (Error (undefined_read_message
                          (case printerType env of USB \<Rightarrow> ''USB'' | Network \<Rightarrow> ''Printer''))),
            (PrinterService True env)\<lparr>dryRun := False\<rparr>)"
proof -
  let ?s = "(PrinterService True env)\<lparr>dryRun := False\<rparr>"
  have a: "taskId t \<notin> set (printedTasks ?s)" "\<not> dryRun ?s" "\<not> escpos ?s"
    using assms by (simp_all add: PrinterService_fields)
  have "printerType ?s = printerType env"
    by (simp add: PrinterService_def loadPrintedTasks_def emit_fields Let_def
        split: cache_file.splits)
  with printTask_no_escpos[OF a] show ?thesis by simp
qed

text \<open>
  C10: in dry-run mode \<open>printTasks\<close> returns the number of input tasks whose identifier is
  not in the dedup cache (each of them is simulated and counted), and no run of the external
  print operation takes place; the cache and the cache file are unchanged.
\<close>

theorem dry_run_count:
  assumes "dryRun st"
  shows "fst (printTasks heap tasks d st) =
           length (filter (\<lambda>r. taskId (heap r) \<notin> set (printedTasks st)) tasks) \<and>
         print_ops (snd (printTasks heap tasks d st)) = print_ops st \<and>
         attempts (snd (printTasks heap tasks d st)) = attempts st \<and>
         printedTasks (snd (printTasks heap tasks d st)) = printedTasks st \<and>
         cacheFile (snd (printTasks heap tasks d st)) = cacheFile st"
  using printTasks_dry[OF assms, of heap tasks d] by simp

theorem dry_run_count_witness:
  "dryRun (PrinterService True (env0\<lparr>cacheFile := JsonIds [''T1'']\<rparr>)) \<and>
   printedTasks (PrinterService True (env0\<lparr>cacheFile := JsonIds [''T1'']\<rparr>)) = [''T1''] \<and>
   fst (printTasks ticket [1, 2, 3] 1000
          (PrinterService True (env0\<lparr>cacheFile := JsonIds [''T1'']\<rparr>))) = 2 \<and>
   print_ops (snd (printTasks ticket [1, 2, 3] 1000
                     (PrinterService True (env0\<lparr>cacheFile := JsonIds [''T1'']\<rparr>)))) = [] \<and>
   printedTasks (snd (printTasks ticket [1, 2, 3] 1000
                     (PrinterService True (env0\<lparr>cacheFile := JsonIds [''T1'']\<rparr>)))) = [''T1'']"
proof -
  let ?st = "PrinterService True (env0\<lparr>cacheFile := JsonIds [''T1'']\<rparr>)"
  have h: "dryRun ?st" by (simp add: PrinterService_fields)
  have q: "printedTasks ?st = [''T1'']" "print_ops ?st = []"
    by (simp_all add: PrinterService_def loadPrintedTasks_def env0_def print_ops_def emit_def
        Set_add_def Let_def)
  from dry_run_count[OF h, of ticket "[1, 2, 3]" 1000] h q
  show ?thesis by (simp add: ticket_def string_of_nat.simps digit_char_def)
qed

text \<open>
  C5: in real mode, when the external print operation fails for a task that is not in the
  dedup cache (the device cannot be built, cannot be opened, or the command chain raises),
  \<open>printTask\<close> is rejected with the error, the cache and the cache file stay as they were
  before that task, the \<open>[ERROR] Failed to print\<close> line is written, the count is passed on
  unchanged, and the loop goes on with the remaining tasks of the batch.
\<close>

theorem print_failure_is_isolated:
  assumes "\<not> dryRun st"
    and "printTasks_loop heap (pre @ r # post) d pre (0, st) = (n, st1)"
    and "taskId (heap r) \<notin> set (printedTasks st1)"
    and "device st1 (attempts st1) \<noteq> Printed"
  shows "\<exists>msg st2. printTask (heap r) st1 = (Inl (Error msg), st2) \<and>
           printedTasks st2 = printedTasks st1 \<and> cacheFile st2 = cacheFile st1 \<and>
           printTasks heap (pre @ r # post) d st =
             printTasks_loop heap (pre @ r # post) d post
               (n, emit (ConsoleError (''[ERROR] Failed to print '' @ taskId (heap r) @ '': '' @ msg))
                      st2)"
proof -
  from loop_frame[of heap "pre @ r # post" d pre 0 st] assms(1,2)
  have real: "\<not> dryRun st1" by simp
  obtain res st2 where p: "printTask (heap r) st1 = (res, st2)"
    by (cases "printTask (heap r) st1")
  obtain msg where res: "res = Inl (Error msg)"
  proof (cases "escpos st1")
    case True
    with p assms(4) that show ?thesis
      by (auto simp: printTask_real[OF assms(3) real True] Let_def split: print_outcome.splits)
  next
    case False
    with p that show ?thesis
      by (auto simp: printTask_no_escpos[OF assms(3) real False])
  qed
  from printTask_failed(1,2)[of "heap r" st1 "Error msg"] p res
  have same: "printedTasks st2 = printedTasks st1" "cacheFile st2 = cacheFile st1" by simp_all
  have "printTasks heap (pre @ r # post) d st =
             printTasks_loop heap (pre @ r # post) d post
               (n, emit (ConsoleError (''[ERROR] Failed to print '' @ taskId (heap r) @ '': '' @ msg))
                      st2)"
    by (simp add: printTasks_def printTasks_loop_simps assms(2) body_eq p res)
  with p res same show ?thesis by blast
qed

theorem print_failure_is_isolated_witness:
  "\<not> dryRun (env0\<lparr>device := (\<lambda>n. if n = 0 then OpenFailed ''LIBUSB_ERROR_ACCESS'' else Printed)\<rparr>) \<and>
   fst (printTasks ticket ([] @ 1 # [2]) 1000
          (env0\<lparr>device := (\<lambda>n. if n = 0 then OpenFailed ''LIBUSB_ERROR_ACCESS'' else Printed)\<rparr>)) = 1 \<and>
   printedTasks (snd (printTasks ticket ([] @ 1 # [2]) 1000
          (env0\<lparr>device := (\<lambda>n. if n = 0 then OpenFailed ''LIBUSB_ERROR_ACCESS'' else Printed)\<rparr>)))
     = [''T2''] \<and>
   ConsoleError ''[ERROR] Failed to print T1: LIBUSB_ERROR_ACCESS''
     \<in> set (trace (snd (printTasks ticket ([] @ 1 # [2]) 1000
          (env0\<lparr>device := (\<lambda>n. if n = 0 then OpenFailed ''LIBUSB_ERROR_ACCESS'' else Printed)\<rparr>))))"
proof -
  let ?st = "env0\<lparr>device := (\<lambda>n. if n = 0 then OpenFailed ''LIBUSB_ERROR_ACCESS'' else Printed)\<rparr>"
  have h1: "\<not> dryRun ?st" by (simp add: env0_def)
  have h2: "printTasks_loop ticket ([] @ 1 # [2]) 1000 [] (0, ?st) = (0, ?st)"
    by (simp add: printTasks_loop_def)
  have h3: "taskId (ticket 1) \<notin> set (printedTasks ?st)" by (simp add: env0_def)
  have h4: "device ?st (attempts ?st) \<noteq> Printed" by (simp add: env0_def)
  note t = print_failure_is_isolated[where heap = ticket and r = 1 and st = ?st and ?st1.0 = ?st
      and pre = "[]" and post = "[2]" and d = 1000 and n = 0, OF h1 h2 h3 h4]
  have c: "fst (printTasks ticket ([] @ 1 # [2]) 1000 ?st) = 1 \<and>
      printedTasks (snd (printTasks ticket ([] @ 1 # [2]) 1000 ?st)) = [''T2''] \<and>
      ConsoleError ''[ERROR] Failed to print T1: LIBUSB_ERROR_ACCESS''
        \<in> set (trace (snd (printTasks ticket ([] @ 1 # [2]) 1000 ?st)))"
    by (simp add: run_defs)
  from t h1 c show ?thesis by blast
qed

text \<open>
  C7, as stated, fails: the wait sits inside \<open>if (printed)\<close>, so a task that is skipped or
  fails is not followed by a wait. Here task 1 is already printed and task 2 follows it:
  the dispatch does not wait at all.
\<close>

theorem printTasks_no_wait_after_skip_counterexample:
  "waits (snd (printTasks ticket [1, 2] 1000 (env0\<lparr>printedTasks := [''T1'']\<rparr>))) = []"
  by (simp add: run_defs)

text \<open>
  C7, amended: in a dispatch of an array of distinct task objects, the dispatcher waits
  \<open>delayMs\<close> after a task exactly when \<open>printTask\<close> reported it printed (a real print or a
  dry-run simulation) and another task follows it in the array; it does not wait after a
  skipped task, after a failed one, or after the last task, and \<open>printTask\<close> itself never
  waits.
\<close>

theorem printTasks_waits:
  assumes "distinct (pre @ r # post)"
  shows "printTasks heap (pre @ r # post) d st =
     (case printTasks_loop heap (pre @ r # post) d pre (0, st) of
        (n, st1) \<Rightarrow>
          (case printTask (heap r) st1 of
             (Inr True, st2) \<Rightarrow>
               printTasks_loop heap (pre @ r # post) d post
                 (n + 1, if post = [] then st2 else sleep d st2)
           | (Inr False, st2) \<Rightarrow> printTasks_loop heap (pre @ r # post) d post (n, st2)
           | (Inl err, st2) \<Rightarrow>
               printTasks_loop heap (pre @ r # post) d post
                 (n, emit (ConsoleError (''[ERROR] Failed to print '' @ taskId (heap r) @ '': ''
                                         @ message err)) st2))) \<and>
     waits (snd (printTask t s)) = waits s"
proof -
  from assms have "r \<notin> set pre" by simp
  then have idx: "indexOf (pre @ r # post) r < int (length (pre @ r # post)) - 1 \<longleftrightarrow> post \<noteq> []"
    by (simp add: indexOf_fresh)
  obtain n st1 where l: "printTasks_loop heap (pre @ r # post) d pre (0, st) = (n, st1)"
    by (cases "printTasks_loop heap (pre @ r # post) d pre (0, st)")
  have "printTasks heap (pre @ r # post) d st =
      printTasks_loop heap (pre @ r # post) d post (printTasks_body heap (pre @ r # post) d r (n, st1))"
    by (simp add: printTasks_def printTasks_loop_simps l)
  then show ?thesis
    unfolding body_eq idx l
    by (simp add: printTask_no_wait split: prod.splits sum.splits bool.splits)
qed

theorem printTasks_waits_witness:
  "distinct ([] @ (1::nat) # [2, 3]) \<and>
   waits (snd (printTasks ticket ([] @ 1 # [2, 3]) 1000 (env0\<lparr>printedTasks := [''T2'']\<rparr>)))
     = [Sleep 1000] \<and>
   fst (printTasks ticket ([] @ 1 # [2, 3]) 1000 (env0\<lparr>printedTasks := [''T2'']\<rparr>)) = 2"
proof -
  have h: "distinct ([] @ (1::nat) # [2, 3])" by simp
  note t = printTasks_waits[where heap = ticket and r = 1 and pre = "[]" and post = "[2, 3]"
      and d = 1000 and st = "env0\<lparr>printedTasks := [''T2'']\<rparr>", OF h]
  have c: "waits (snd (printTasks ticket ([] @ 1 # [2, 3]) 1000 (env0\<lparr>printedTasks := [''T2'']\<rparr>)))
       = [Sleep 1000] \<and>
     fst (printTasks ticket ([] @ 1 # [2, 3]) 1000 (env0\<lparr>printedTasks := [''T2'']\<rparr>)) = 2"
    by (simp add: run_defs)
  from t h c show ?thesis by blast
qed

text \<open>
  The test \<open>tasks.indexOf(task) < tasks.length - 1\<close> finds the first position of the
  object: when the same object occurs twice in the array, a dry run also waits after the
  last task.
\<close>

lemma printTasks_waits_after_repeated_object:
  "waits (snd (printTasks ticket [1, 1] 1000 (PrinterService True env0)))
     = [Sleep 1000, Sleep 1000]"
  by (simp add: run_defs PrinterService_def loadPrintedTasks_def)


section \<open>What removes identifiers from the cache\<close>

text \<open>
  C6, as stated, fails. \<open>printTest\<close> deletes the identifier of the test ticket from the
  in-memory set before it prints, and when the device cannot be opened nothing puts it
  back. The cache file is rewritten as a whole from the in-memory set, so the next
  successful print then drops that identifier from the persisted storage as well. And a
  write that fails after truncating the file leaves nothing for a restart to load, even of
  the identifiers that are in the in-memory set.
\<close>

theorem printTest_removes_test_id_counterexample:
  "''T00000'' \<in> set (printedTasks (env0\<lparr>printedTasks := [''T00000''],
                                        cacheFile := JsonIds [''T00000''],
                                        device := (\<lambda>n. if n = 0 then OpenFailed ''LIBUSB_ERROR_ACCESS''
                                                        else Printed)\<rparr>)) \<and>
   ''T00000'' \<notin> set (printedTasks (exec PrintTest
                        (env0\<lparr>printedTasks := [''T00000''],
                              cacheFile := JsonIds [''T00000''],
                              device := (\<lambda>n. if n = 0 then OpenFailed ''LIBUSB_ERROR_ACCESS''
                                              else Printed)\<rparr>))) \<and>
   ''T00000'' \<in> persisted (exec PrintTest
                        (env0\<lparr>printedTasks := [''T00000''],
                              cacheFile := JsonIds [''T00000''],
                              device := (\<lambda>n. if n = 0 then OpenFailed ''LIBUSB_ERROR_ACCESS''
                                              else Printed)\<rparr>)) \<and>
   ''T00000'' \<notin> persisted (exec (PrintTask (ticket 1)) (exec PrintTest
                        (env0\<lparr>printedTasks := [''T00000''],
                              cacheFile := JsonIds [''T00000''],
                              device := (\<lambda>n. if n = 0 then OpenFailed ''LIBUSB_ERROR_ACCESS''
                                              else Printed)\<rparr>))) \<and>
   ''T7'' \<in> set (printedTasks (env0\<lparr>printedTasks := [''T7''], cacheFile := JsonIds [''T7''],
                    writeError := Some (FailsAfterTruncate ''ENOSPC'' ''Unexpected end of JSON input'')\<rparr>)) \<and>
   ''T7'' \<in> persisted (env0\<lparr>printedTasks := [''T7''], cacheFile := JsonIds [''T7''],
                    writeError := Some (FailsAfterTruncate ''ENOSPC'' ''Unexpected end of JSON input'')\<rparr>) \<and>
   ''T7'' \<notin> persisted (exec (MarkPrinted ''T8'')
                   (env0\<lparr>printedTasks := [''T7''], cacheFile := JsonIds [''T7''],
                    writeError := Some (FailsAfterTruncate ''ENOSPC'' ''Unexpected end of JSON input'')\<rparr>))"
  by (simp add: run_defs persisted_eq)

text \<open>
  C6, amended: no operation of the service other than \<open>clearCache\<close> removes from the
  in-memory set an identifier other than that of the test ticket, \<open>T00000\<close>, which
  \<open>printTest\<close> deletes before printing; and, as long as no write fails after truncating
  the cache file, no operation other than \<open>clearCache\<close> removes from the persisted storage
  an identifier that is also in the in-memory set.
\<close>

theorem only_clear_and_test_remove:
  assumes "oper \<noteq> ClearCache" and "x \<in> set (printedTasks st)"
  shows "(oper \<noteq> PrintTest \<or> x \<noteq> ''T00000'' \<longrightarrow> x \<in> set (printedTasks (exec oper st))) \<and>
         (x \<in> persisted st \<and> \<not> write_truncates st \<longrightarrow> x \<in> persisted (exec oper st))"
proof (cases oper)
  case LoadPrintedTasks
  then show ?thesis using assms(2)
    by (auto simp: loadPrintedTasks_def emit_fields set_fold_Set_add persisted_eq Let_def
        split: cache_file.splits)
next
  case SavePrintedTasks
  then show ?thesis using assms(2)
    by (auto simp: savePrintedTasks_fields savePrintedTasks_file persisted_eq write_truncates_def
        split: option.splits cache_file.splits write_fault.splits)
next
  case (IsAlreadyPrinted tid)
  then show ?thesis using assms(2) by simp
next
  case (MarkPrinted tid)
  then show ?thesis using assms(2)
    by (auto simp: markPrinted_fields markPrinted_file persisted_eq set_Set_add
        write_truncates_def split: option.splits cache_file.splits write_fault.splits)
next
  case ClearCache
  with assms(1) show ?thesis by simp
next
  case (SimulatePrint t)
  then show ?thesis using assms(2)
    by (simp add: simulatePrint_def emit_fields persisted_eq)
next
  case (PrintTask t)
  then show ?thesis using assms(2) printTask_mono[of st t] printTask_persisted[of x st t]
    by auto
next
  case PrintTest
  let ?s = "st\<lparr>printedTasks := Set_delete (taskId testTask) (printedTasks st)\<rparr>"
  have per: "persisted ?s = persisted st" by (simp add: persisted_eq)
  have wt: "write_truncates ?s = write_truncates st" by (simp add: write_truncates_def)
  have mem: "x \<noteq> ''T00000'' \<Longrightarrow> x \<in> set (printedTasks ?s)"
    using assms(2) by (simp add: set_Set_delete testTask_def)
  have alt: "x \<in> set (printedTasks ?s) \<or> x = taskId testTask"
    using assms(2) by (auto simp: set_Set_delete)
  from mem printTask_mono[of ?s testTask]
  have a: "x \<noteq> ''T00000'' \<Longrightarrow> x \<in> set (printedTasks (exec oper st))"
    by (auto simp: PrintTest printTest_def)
  from printTask_persisted[of x ?s testTask, OF _ alt] per wt
  have b: "x \<in> persisted st \<Longrightarrow> \<not> write_truncates st \<Longrightarrow> x \<in> persisted (exec oper st)"
    by (simp add: PrintTest printTest_def)
  from a b PrintTest show ?thesis by blast
next
  case (PrintTasks heap tasks d)
  obtain n' st' where w: "printTasks_loop heap tasks d tasks (0, st) = (n', st')"
    by (cases "printTasks_loop heap tasks d tasks (0, st)")
  from loop_cached[of "{x}" st heap tasks d tasks 0 n' st'] assms(2) w
  show ?thesis by (auto simp: PrintTasks printTasks_def)
next
  case (SleepFor ms)
  then show ?thesis using assms(2) by (simp add: sleep_fields persisted_eq)
qed

theorem only_clear_and_test_remove_witness:
  "PrintTasks ticket [1, 2] 1000 \<noteq> ClearCache \<and>
   ''T7'' \<in> set (printedTasks (env0\<lparr>printedTasks := [''T7''], cacheFile := JsonIds [''T7'']\<rparr>)) \<and>
   ''T7'' \<in> persisted (env0\<lparr>printedTasks := [''T7''], cacheFile := JsonIds [''T7'']\<rparr>) \<and>
   \<not> write_truncates (env0\<lparr>printedTasks := [''T7''], cacheFile := JsonIds [''T7'']\<rparr>) \<and>
   ''T7'' \<in> set (printedTasks (exec (PrintTasks ticket [1, 2] 1000)
                    (env0\<lparr>printedTasks := [''T7''], cacheFile := JsonIds [''T7'']\<rparr>))) \<and>
   ''T7'' \<in> persisted (exec (PrintTasks ticket [1, 2] 1000)
                    (env0\<lparr>printedTasks := [''T7''], cacheFile := JsonIds [''T7'']\<rparr>))"
proof -
  let ?st = "env0\<lparr>printedTasks := [''T7''], cacheFile := JsonIds [''T7'']\<rparr>"
  have h1: "PrintTasks ticket [1, 2] 1000 \<noteq> ClearCache" by simp
  have h2: "''T7'' \<in> set (printedTasks ?st)" by (simp add: env0_def)
  have h3: "''T7'' \<in> persisted ?st" by (simp add: persisted_eq env0_def)
  have h4: "\<not> write_truncates ?st" by (simp add: write_truncates_def env0_def)
  from only_clear_and_test_remove[where oper = "PrintTasks ticket [1, 2] 1000" and x = "''T7''"
      and st = ?st, OF h1 h2] h1 h2 h3 h4 show ?thesis by simp
qed


section \<open>The sprint filter\<close>

text \<open>
  C8: a task whose column attachment data is absent (no attachments, no column
  attachment, or no boards) never passes the filter callback, whichever pattern was compiled
  from whichever keywords: the callback returns false, it does not raise. Whenever
  \<open>filterSprintTasks\<close> returns a list, the task is not in it, and the presence of the task
  in the input changes nothing else in the outcome.
\<close>

theorem filterSprintTasks_fail_closed:
  assumes "columnsData t = None"
  shows "\<not> in_sprint_column test t \<and>
         (\<forall>sel. filterSprintTasks RegExp kws tasks = Inr sel \<longrightarrow> t \<notin> set sel) \<and>
         filterSprintTasks RegExp kws (pre @ t # post) = filterSprintTasks RegExp kws (pre @ post)"
  using assms
  by (auto simp: in_sprint_column_def filterSprintTasks_def split: sum.splits)

theorem filterSprintTasks_fail_closed_witness:
  "columnsData (raw_task 3 None) = None \<and>
   \<not> in_sprint_column (\<lambda>name. True) (raw_task 3 None) \<and>
   filterSprintTasks RegExp_i [''sprint'', ''doing'']
     ([raw_task 1 (Some [''Backlog'']), raw_task 2 (Some [''DOING''])] @ raw_task 3 None # [])
   = Inr [raw_task 2 (Some [''DOING''])]"
proof -
  have h: "columnsData (raw_task 3 None) = None"
    by (simp add: columnsData_def raw_task_def)
  have e: "filterSprintTasks RegExp_i [''sprint'', ''doing'']
     ([raw_task 1 (Some [''Backlog'']), raw_task 2 (Some [''DOING''])] @ [])
   = Inr [raw_task 2 (Some [''DOING''])]"
    by code_simp
  from filterSprintTasks_fail_closed[OF h, of "\<lambda>name. True" RegExp_i "[''sprint'', ''doing'']" "[]"
      "[raw_task 1 (Some [''Backlog'']), raw_task 2 (Some [''DOING''])]" "[]"] h e
  show ?thesis by simp
qed

text \<open>
  C2: the keywords are joined with bars and compiled as a regular expression, so a keyword
  is read as a pattern and not as the text to look for. With the keyword \<open>to.do\<close> the dot
  matches any character: a task in a column named \<open>To Do\<close> is selected, although no column
  name of it contains \<open>to.do\<close>, and the selection the claim describes is empty.
\<close>

theorem filterSprintTasks_keyword_as_pattern:
  "filterSprintTasks RegExp_i [''sprint'', ''to.do''] [raw_task 1 (Some [''To Do''])]
     = Inr [raw_task 1 (Some [''To Do''])] \<and>
   selectSprintTasks_spec [''sprint'', ''to.do''] [raw_task 1 (Some [''To Do''])] = []"
  by code_simp

text \<open>
  For keywords that contain no syntax character of regular expressions the two selections
  agree: the filter returns, in input order, the tasks with a column name that contains a
  keyword, compared without regard to case.
\<close>

lemma of_char_toUpperCase:
  "(of_char (toUpperCase_char c) :: nat) =
     (if 97 \<le> (of_char c :: nat) \<and> (of_char c :: nat) \<le> 122 then of_char c - 32 else of_char c)"
proof -
  have "(k - 32) mod 256 = k - 32" if "k \<le> 122" for k :: nat
    using that by simp
  then show ?thesis by (auto simp: toUpperCase_char_def Let_def)
qed

lemma of_char_toLowerCase:
  "(of_char (toLowerCase_char c) :: nat) =
     (if 65 \<le> (of_char c :: nat) \<and> (of_char c :: nat) \<le> 90 then of_char c + 32 else of_char c)"
  by (simp add: toLowerCase_char_def Let_def)

lemma same_letter_nat:
  fixes m n :: nat
  shows "((if 97 \<le> m \<and> m \<le> 122 then m - 32 else m) = (if 97 \<le> n \<and> n \<le> 122 then n - 32 else n))
     \<longleftrightarrow> ((if 65 \<le> m \<and> m \<le> 90 then m + 32 else m) = (if 65 \<le> n \<and> n \<le> 90 then n + 32 else n))"
  by (simp split: if_splits) linarith

lemma same_letter:
  "toUpperCase_char c = toUpperCase_char d \<longleftrightarrow> toLowerCase_char c = toLowerCase_char d"
proof -
  have u: "toUpperCase_char c = toUpperCase_char d \<longleftrightarrow>
        (of_char (toUpperCase_char c) :: nat) = of_char (toUpperCase_char d)"
    by simp
  have l: "toLowerCase_char c = toLowerCase_char d \<longleftrightarrow>
        (of_char (toLowerCase_char c) :: nat) = of_char (toLowerCase_char d)"
    by simp
  show ?thesis
    unfolding u l of_char_toUpperCase of_char_toLowerCase by (rule same_letter_nat)
qed

lemma matches_at_literal:
  "matches_at (map PatternCharacter kw) s \<longleftrightarrow> prefix (toLowerCase kw) (toLowerCase s)"
proof (induction kw arbitrary: s)
  case Nil
  show ?case by (simp add: toLowerCase_def)
next
  case (Cons k kw)
  show ?case
  proof (cases s)
    case Nil
    then show ?thesis by (simp add: toLowerCase_def)
  next
    case (Cons c cs)
    with Cons.IH[of cs] show ?thesis
      by (simp add: toLowerCase_def same_letter)
  qed
qed

lemma search_literal:
  "search (map PatternCharacter kw) s \<longleftrightarrow> sublist (toLowerCase kw) (toLowerCase s)"
proof (induction s)
  case Nil
  show ?case by (simp add: matches_at_literal toLowerCase_def)
next
  case (Cons c cs)
  have "sublist (toLowerCase kw) (toLowerCase (c # cs)) \<longleftrightarrow>
        prefix (toLowerCase kw) (toLowerCase (c # cs)) \<or> sublist (toLowerCase kw) (toLowerCase cs)"
    by (simp add: toLowerCase_def sublist_Cons_right)
  with Cons.IH show ?case by (simp add: matches_at_literal)
qed

lemma parse_literal_prepend:
  assumes "parse_disjunction s = Some (a # as)" and "\<forall>c \<in> set kw. \<not> SyntaxCharacter c"
  shows "parse_disjunction (kw @ s) = Some ((map PatternCharacter kw @ a) # as)"
  using assms(2)
proof (induction kw)
  case Nil
  then show ?case using assms(1) by simp
next
  case (Cons k kw)
  then have "\<not> SyntaxCharacter k" by simp
  then have "k \<noteq> CHR ''|''" "k \<noteq> CHR ''.''" by (auto simp: SyntaxCharacter_def)
  with Cons show ?case by simp
qed

lemma parse_join_literal:
  assumes "kws \<noteq> []" and "\<forall>kw \<in> set kws. \<forall>c \<in> set kw. \<not> SyntaxCharacter c"
  shows "parse_disjunction (join ''|'' kws) = Some (map (map PatternCharacter) kws)"
  using assms
proof (induction "''|''" kws rule: join.induct)
  case 1
  then show ?case by simp
next
  case (2 x)
  from parse_literal_prepend[of "[]" "[]" "[]" x] 2 show ?case by simp
next
  case (3 x y ys)
  then have ih: "parse_disjunction (join ''|'' (y # ys)) = Some (map (map PatternCharacter) (y # ys))"
    by simp
  then have "parse_disjunction (''|'' @ join ''|'' (y # ys)) =
      Some ([] # map (map PatternCharacter) (y # ys))" by simp
  from parse_literal_prepend[OF this, of x] 3(3) show ?case by simp
qed

lemma regexp_test_literal:
  "regexp_test (map (map PatternCharacter) kws) name = list_ex (contains_ci name) kws"
  by (simp add: regexp_test_def list_ex_iff search_literal contains_ci_def String_includes_def)

lemma filterSprintTasks_literal_keywords:
  assumes "kws \<noteq> []" and "\<forall>kw \<in> set kws. \<forall>c \<in> set kw. \<not> SyntaxCharacter c"
  shows "filterSprintTasks RegExp_i kws tasks = Inr (selectSprintTasks_spec kws tasks)"
proof -
  have "(\<lambda>name. regexp_test (map (map PatternCharacter) kws) name) =
        (\<lambda>name. list_ex (contains_ci name) kws)"
    by (simp add: regexp_test_literal)
  then show ?thesis
    by (simp add: filterSprintTasks_def RegExp_i_def parse_join_literal[OF assms]
        selectSprintTasks_spec_def)
qed

lemma filterSprintTasks_subseq:
  "filterSprintTasks RegExp kws tasks = Inr sel \<Longrightarrow> subseq sel tasks"
  by (auto simp: filterSprintTasks_def split: sum.splits)

lemma selectSprintTasks_spec_subseq: "subseq (selectSprintTasks_spec kws tasks) tasks"
  by (simp add: selectSprintTasks_spec_def)


section \<open>The formatter\<close>





section \<open>The example scenario\<close>

text \<open>
  With the keywords \<open>sprint\<close> and \<open>doing\<close>, of three tasks in the columns \<open>Backlog\<close>,
  \<open>Doing\<close> and in no column, the second is selected. Dispatching its ticket with an empty
  cache prints once, returns 1 and leaves the cache and the cache file holding \<open>T2\<close>; a
  second dispatch prints nothing more and returns 0.
\<close>

lemma scenario_selection:
  "filterSprintTasks RegExp_i [''sprint'', ''doing'']
     [raw_task 1 (Some [''Backlog'']), raw_task 2 (Some [''Doing'']), raw_task 3 (Some [])]
     = Inr [raw_task 2 (Some [''Doing''])]"
  by code_simp

lemma scenario_format:
  "formatTaskForPrint (Some ''https://phabricator.example.com/api'') (raw_task 2 (Some [''Doing'']))
     = Inr ((ticket 2)\<lparr>projectPhids := [''PHID-PROJ-1'']\<rparr>)"
  by (simp add: formatTaskForPrint_def raw_task_def columnsData_def column_names_def
      Object_values_def or_default_def opt_name_def ticket_def string_of_nat.simps
      digit_char_def Let_def)

lemma scenario_dispatch:
  "fst (printTasks (\<lambda>r. (ticket r)\<lparr>projectPhids := [''PHID-PROJ-1'']\<rparr>) [2] 0 env0) = 1 \<and>
   printedTasks (snd (printTasks (\<lambda>r. (ticket r)\<lparr>projectPhids := [''PHID-PROJ-1'']\<rparr>) [2] 0 env0))
     = [''T2''] \<and>
   cacheFile (snd (printTasks (\<lambda>r. (ticket r)\<lparr>projectPhids := [''PHID-PROJ-1'']\<rparr>) [2] 0 env0))
     = JsonIds [''T2''] \<and>
   length (print_ops (snd (printTasks (\<lambda>r. (ticket r)\<lparr>projectPhids := [''PHID-PROJ-1'']\<rparr>) [2] 0
                             env0))) = 1 \<and>
   fst (printTasks (\<lambda>r. (ticket r)\<lparr>projectPhids := [''PHID-PROJ-1'']\<rparr>) [2] 0
          (snd (printTasks (\<lambda>r. (ticket r)\<lparr>projectPhids := [''PHID-PROJ-1'']\<rparr>) [2] 0 env0))) = 0 \<and>
   length (print_ops (snd (printTasks (\<lambda>r. (ticket r)\<lparr>projectPhids := [''PHID-PROJ-1'']\<rparr>) [2] 0
          (snd (printTasks (\<lambda>r. (ticket r)\<lparr>projectPhids := [''PHID-PROJ-1'']\<rparr>) [2] 0 env0))))) = 1"
  by (simp add: run_defs)

end
